theory Spec2Isabelle
  imports Complex_Main "HOL-Library.Sublist" "HOL-Library.Log_Nat"
begin

section \<open>Notes API: the embedding of \<open>src/solution/index.js\<close>\<close>

text \<open>
  The server keeps one JSON file holding an array of notes and answers five routes
  (list, get, create, update, soft delete). Every handler is modelled as a function from
  its inputs and the state of the file to the response together with the new state of the
  file.

  Conventions of the model:
  \<^item> a JavaScript string is a \<open>string\<close>, one \<open>char\<close> per UTF-16 code unit; this is exact
    for text whose code units are below 256, and \<open>length\<close> is the \<open>.length\<close> of the source;
  \<^item> a JavaScript number that the handlers compute with is a double whose value is an
    integer, an infinity or \<open>NaN\<close>; every operation rounds its exact result to the nearest
    double (ties to even) and overflows to an infinity. \<open>-0\<close> is \<open>0\<close>: the two differ only
    in the sign of a quotient by zero, which is not observed;
  \<^item> a numeric field of a response is the value \<open>res.json\<close> serialises: \<open>NaN\<close> and the
    infinities are written as \<open>null\<close>, here \<open>None\<close>;
  \<^item> a list stands for an array, which has fewer than \<open>2^32\<close> elements;
  \<^item> the file is missing, or cannot be read or parsed, or holds an array of well-formed
    notes; a write to the file succeeds;
  \<^item> the identifier produced by \<open>uuidv4()\<close> and the time stamp produced by
    \<open>new Date().toISOString()\<close> are inputs of \<open>createNote\<close>.
\<close>

subsection \<open>Strings: \<open>trim\<close>, \<open>toLowerCase\<close>, \<open>includes\<close>, \<open>parseInt\<close>\<close>

text \<open>White space of ECMAScript among the code units below 256: TAB, LF, VT, FF, CR, SP,
  NBSP.\<close>

definition is_ws :: "char \<Rightarrow> bool" where
  "is_ws c = ((of_char c :: nat) \<in> {9, 10, 11, 12, 13, 32, 160})"

text \<open>\<open>String.prototype.trim\<close>: white space removed at both ends.\<close>

definition trim :: "string \<Rightarrow> string" where
  "trim s = rev (dropWhile is_ws (rev (dropWhile is_ws s)))"

text \<open>\<open>String.prototype.toLowerCase\<close> on code units below 256: \<open>A\<close>..\<open>Z\<close> and the
  Latin-1 capitals \<open>0xC0\<close>..\<open>0xDE\<close> (the multiplication sign \<open>0xD7\<close> apart) move up by 32.\<close>

definition lower_char :: "char \<Rightarrow> char" where
  "lower_char c =
     (let n = (of_char c :: nat) in
      if (65 \<le> n \<and> n \<le> 90) \<or> (192 \<le> n \<and> n \<le> 222 \<and> n \<noteq> 215)
      then char_of (n + 32) else c)"

definition toLowerCase :: "string \<Rightarrow> string" where
  "toLowerCase s = map lower_char s"

text \<open>\<open>String.prototype.includes\<close>: does \<open>needle\<close> occur in \<open>hay\<close> as a contiguous
  run, starting at some position of \<open>hay\<close> (its end included, for the empty needle).\<close>

fun includes_str :: "string \<Rightarrow> string \<Rightarrow> bool" where
  "includes_str [] needle = (needle = [])"
| "includes_str (h # hay) needle = (prefix needle (h # hay) \<or> includes_str hay needle)"

text \<open>The value of a digit or letter as \<open>parseInt\<close> reads it, and whether a code unit is a
  digit of the radix.\<close>

definition digit_val :: "char \<Rightarrow> nat option" where
  "digit_val c =
     (let n = (of_char c :: nat) in
      if 48 \<le> n \<and> n \<le> 57 then Some (n - 48)
      else if 97 \<le> n \<and> n \<le> 122 then Some (n - 87)
      else if 65 \<le> n \<and> n \<le> 90 then Some (n - 55)
      else None)"

definition is_digit :: "nat \<Rightarrow> char \<Rightarrow> bool" where
  "is_digit R c = (case digit_val c of None \<Rightarrow> False | Some d \<Rightarrow> d < R)"

definition digits_value :: "nat \<Rightarrow> string \<Rightarrow> int" where
  "digits_value R z =
     foldl (\<lambda>acc c. acc * int R + (case digit_val c of None \<Rightarrow> 0 | Some d \<Rightarrow> int d)) 0 z"

text \<open>The numbers of the handlers: \<open>NaN\<close>, the two infinities, and the doubles whose value
  is an integer.\<close>

datatype jsnum = NaN | PosInf | NegInf | Fin int

text \<open>Rounding a non-negative integer to 53 significant bits, ties to even: below \<open>2^53\<close>
  nothing is cut off; above, the lowest \<open>e\<close> bits are, where \<open>e\<close> is the bit length less
  53.\<close>

definition round_int :: "int \<Rightarrow> int" where
  "round_int a =
     (let e = nat (bitlen a - 53);
          q = a div 2 ^ e;
          r = a mod 2 ^ e;
          q' = (if 2 ^ e < 2 * r \<or> (2 * r = 2 ^ e \<and> odd q) then q + 1 else q)
      in q' * 2 ^ e)"

text \<open>The double nearest to an integer: the magnitude is rounded, and a rounded magnitude of
  \<open>2^1024\<close> or more (a bit length above 1024) is an infinity.\<close>

definition round_double :: "int \<Rightarrow> jsnum" where
  "round_double n =
     (let m = round_int \<bar>n\<bar>
      in if 1024 < bitlen m then (if n < 0 then NegInf else PosInf)
         else Fin (sgn n * m))"

text \<open>\<open>parseInt(string)\<close> with no radix: leading white space is skipped, one sign is read,
  a prefix \<open>0x\<close> or \<open>0X\<close> selects radix 16, the longest run of digits is read, and the result
  is the double nearest to its signed value; an empty run is \<open>NaN\<close>. (The standard lets an
  implementation read the decimal digits after the 20th as zeros; the model reads them
  all.)\<close>

definition parseInt_string :: "string \<Rightarrow> jsnum" where
  "parseInt_string inputString =
     (let S = dropWhile is_ws inputString;
          sign = (if S \<noteq> [] \<and> hd S = CHR ''-'' then - 1 else (1::int));
          S1 = (if S \<noteq> [] \<and> (hd S = CHR ''+'' \<or> hd S = CHR ''-'') then tl S else S);
          hex = (take 2 S1 = ''0x'' \<or> take 2 S1 = ''0X'');
          R = (if hex then 16 else 10);
          S2 = (if hex then drop 2 S1 else S1);
          Z = takeWhile (is_digit R) S2
      in if Z = [] then NaN else round_double (sign * digits_value R Z))"

text \<open>A query parameter as \<open>parseInt\<close> receives it: the text of the query string, or the
  number that the destructuring default put in its place (1 or 10, which \<open>parseInt\<close>
  returns as they are).\<close>

datatype qvalue = QNumber int | QString string

fun parseInt :: "qvalue \<Rightarrow> jsnum" where
  "parseInt (QNumber n) = Fin n"
| "parseInt (QString s) = parseInt_string s"

subsection \<open>Arrays: \<open>slice\<close>, \<open>findIndex\<close>\<close>

text \<open>\<open>Array.prototype.slice(start, end)\<close>: \<open>NaN\<close> counts as 0, a negative bound counts from
  the end, both bounds are clamped to the array (so \<open>-Infinity\<close> is 0 and \<open>Infinity\<close> is the
  length), and an end before the start gives the empty array.\<close>

definition slice_bound :: "int \<Rightarrow> jsnum \<Rightarrow> int" where
  "slice_bound len b =
     (case b of
        NaN \<Rightarrow> 0
      | PosInf \<Rightarrow> len
      | NegInf \<Rightarrow> 0
      | Fin rel \<Rightarrow> if rel < 0 then max (len + rel) 0 else min rel len)"

definition slice :: "'a list \<Rightarrow> jsnum \<Rightarrow> jsnum \<Rightarrow> 'a list" where
  "slice xs start_i end_i =
     (let len = int (length xs);
          k = slice_bound len start_i;
          final = slice_bound len end_i
      in take (nat (max (final - k) 0)) (drop (nat k) xs))"

text \<open>\<open>Array.prototype.findIndex\<close>: the first index whose element satisfies the predicate;
  \<open>None\<close> stands for \<open>-1\<close>.\<close>

fun findIndex :: "('a \<Rightarrow> bool) \<Rightarrow> 'a list \<Rightarrow> nat option" where
  "findIndex P [] = None"
| "findIndex P (x # xs) =
     (if P x then Some 0 else map_option Suc (findIndex P xs))"

subsection \<open>Notes and the file that stores them\<close>

record Note =
  note_id :: string
  title :: string
  content :: string
  createdAt :: string
  deleted :: bool

datatype notes_file = Missing | Unreadable | Content "Note list"

datatype io_error = ReadError

text \<open>\<open>readNotesFile\<close>: a missing file is created holding the empty array; a file that
  cannot be read or parsed makes the call throw, which every handler answers as an internal
  error. \<open>writeNotesFile\<close> replaces the whole content.\<close>

definition writeNotesFile :: "Note list \<Rightarrow> notes_file \<Rightarrow> notes_file" where
  "writeNotesFile notes fs = Content notes"

definition readNotesFile :: "notes_file \<Rightarrow> (io_error + Note list) \<times> notes_file" where
  "readNotesFile fs =
     (case fs of
        Content notes \<Rightarrow> (Inr notes, fs)
      | Missing \<Rightarrow> (Inr [], writeNotesFile [] fs)
      | Unreadable \<Rightarrow> (Inl ReadError, fs))"

subsection \<open>Validation\<close>

text \<open>A field of the request body, as JSON delivers it.\<close>

datatype jsvalue =
  JUndefined | JNull | JBool bool | JNumber int | JString string | JObject

fun falsy :: "jsvalue \<Rightarrow> bool" where
  "falsy JUndefined = True"
| "falsy JNull = True"
| "falsy (JBool b) = (\<not> b)"
| "falsy (JNumber n) = (n = 0)"
| "falsy (JString s) = (s = [])"
| "falsy JObject = False"

fun is_string :: "jsvalue \<Rightarrow> bool" where
  "is_string (JString s) = True"
| "is_string _ = False"

fun trimmed_empty :: "jsvalue \<Rightarrow> bool" where
  "trimmed_empty (JString s) = (trim s = [])"
| "trimmed_empty _ = False"

fun js_length :: "jsvalue \<Rightarrow> nat" where
  "js_length (JString s) = length s"
| "js_length _ = 0"

definition title_required :: string where
  "title_required = ''Title is required and must be a non-empty string''"

definition title_too_long :: string where
  "title_too_long = ''Title must be 100 characters or less''"

definition content_required :: string where
  "content_required = ''Content is required and must be a non-empty string''"

definition validateNote :: "jsvalue \<Rightarrow> jsvalue \<Rightarrow> string list" where
  "validateNote title_v content_v =
     (if falsy title_v \<or> \<not> is_string title_v \<or> trimmed_empty title_v
      then [title_required]
      else if js_length title_v > 100 then [title_too_long]
      else [])
     @
     (if falsy content_v \<or> \<not> is_string content_v \<or> trimmed_empty content_v
      then [content_required]
      else [])"

subsection \<open>The handlers\<close>

text \<open>The query of \<open>GET /notes\<close>: each parameter is absent or a text.\<close>

record query =
  page :: "string option"
  limit :: "string option"
  search :: "string option"
  includeDeleted :: "string option"

record pagination =
  page_num :: "int option"
  limit_num :: "int option"
  total :: nat
  totalPages :: "int option"

datatype response =
  ListOk "Note list" pagination
| NoteOk Note
| Created Note
| DeletedOk
| ValidationFailed "string list"
| NotFound
| InternalError

text \<open>The destructuring defaults of the list handler: \<open>page = 1\<close>, \<open>limit = 10\<close>,
  \<open>includeDeleted = 'false'\<close>; a default stands in for an absent parameter only.\<close>

definition page_arg :: "query \<Rightarrow> qvalue" where
  "page_arg q = (case page q of None \<Rightarrow> QNumber 1 | Some s \<Rightarrow> QString s)"

definition limit_arg :: "query \<Rightarrow> qvalue" where
  "limit_arg q = (case limit q of None \<Rightarrow> QNumber 10 | Some s \<Rightarrow> QString s)"

definition includeDeleted_arg :: "query \<Rightarrow> string" where
  "includeDeleted_arg q = (case includeDeleted q of None \<Rightarrow> ''false'' | Some s \<Rightarrow> s)"

text \<open>Lines 56 to 70: the deleted notes are dropped unless \<open>includeDeleted\<close> is the text
  \<open>true\<close>; then, when \<open>search\<close> is a non-empty text, the notes whose lower-cased title or
  content includes the lower-cased term are kept.\<close>

definition search_match :: "string \<Rightarrow> Note \<Rightarrow> bool" where
  "search_match searchTerm n =
     (includes_str (toLowerCase (title n)) searchTerm \<or>
      includes_str (toLowerCase (content n)) searchTerm)"

definition filterNotes :: "query \<Rightarrow> Note list \<Rightarrow> Note list" where
  "filterNotes q notes =
     (let filteredNotes =
            (if includeDeleted_arg q \<noteq> ''true''
             then filter (\<lambda>n. \<not> deleted n) notes else notes)
      in case search q of
           None \<Rightarrow> filteredNotes
         | Some s \<Rightarrow>
             if s = [] then filteredNotes
             else filter (search_match (toLowerCase s)) filteredNotes)"

text \<open>The operators \<open>-\<close>, \<open>*\<close> and \<open>+\<close> on doubles: \<open>NaN\<close> is contagious, the difference
  of equal infinities, the sum of opposite ones and the product of an infinity and zero are
  \<open>NaN\<close>, and the exact result of two finite operands is rounded.\<close>

fun num_sub :: "jsnum \<Rightarrow> jsnum \<Rightarrow> jsnum" where
  "num_sub (Fin x) (Fin y) = round_double (x - y)"
| "num_sub NaN b = NaN"
| "num_sub a NaN = NaN"
| "num_sub PosInf PosInf = NaN"
| "num_sub NegInf NegInf = NaN"
| "num_sub PosInf b = PosInf"
| "num_sub a PosInf = NegInf"
| "num_sub NegInf b = NegInf"
| "num_sub a NegInf = PosInf"

fun is_negative :: "jsnum \<Rightarrow> bool" where
  "is_negative NegInf = True"
| "is_negative (Fin x) = (x < 0)"
| "is_negative _ = False"

fun num_mul :: "jsnum \<Rightarrow> jsnum \<Rightarrow> jsnum" where
  "num_mul (Fin x) (Fin y) = round_double (x * y)"
| "num_mul NaN b = NaN"
| "num_mul a NaN = NaN"
| "num_mul a b =
     (if a = Fin 0 \<or> b = Fin 0 then NaN
      else if is_negative a = is_negative b then PosInf else NegInf)"

fun num_add :: "jsnum \<Rightarrow> jsnum \<Rightarrow> jsnum" where
  "num_add (Fin x) (Fin y) = round_double (x + y)"
| "num_add NaN b = NaN"
| "num_add a NaN = NaN"
| "num_add PosInf NegInf = NaN"
| "num_add NegInf PosInf = NaN"
| "num_add PosInf b = PosInf"
| "num_add a PosInf = PosInf"
| "num_add NegInf b = NegInf"
| "num_add a NegInf = NegInf"

text \<open>\<open>Math.ceil(length / limitNum)\<close>, as it is serialised. The quotient by zero is infinite
  or \<open>NaN\<close>, hence \<open>null\<close>; the quotient by an infinity is zero; and for the length of an
  array the rounding of the quotient by a finite number does not move it across an integer,
  so that its ceiling is the ceiling of the exact quotient.\<close>

definition ceil_quotient :: "nat \<Rightarrow> jsnum \<Rightarrow> int option" where
  "ceil_quotient len d =
     (case d of
        NaN \<Rightarrow> None
      | PosInf \<Rightarrow> Some 0
      | NegInf \<Rightarrow> Some 0
      | Fin l \<Rightarrow> if l = 0 then None else Some (- ((- int len) div l)))"

text \<open>A number as \<open>res.json\<close> writes it.\<close>

definition json_num :: "jsnum \<Rightarrow> int option" where
  "json_num x = (case x of Fin n \<Rightarrow> Some n | _ \<Rightarrow> None)"

definition listNotes :: "query \<Rightarrow> notes_file \<Rightarrow> response \<times> notes_file" where
  "listNotes q fs =
     (case readNotesFile fs of
        (Inl e, fs') \<Rightarrow> (InternalError, fs')
      | (Inr notes, fs') \<Rightarrow>
          (let filteredNotes = filterNotes q notes;
               pageNum = parseInt (page_arg q);
               limitNum = parseInt (limit_arg q);
               startIndex = num_mul (num_sub pageNum (Fin 1)) limitNum;
               endIndex = num_add startIndex limitNum;
               paginatedNotes = slice filteredNotes startIndex endIndex
           in (ListOk paginatedNotes
                 \<lparr>page_num = json_num pageNum, limit_num = json_num limitNum,
                  total = length filteredNotes,
                  totalPages = ceil_quotient (length filteredNotes) limitNum\<rparr>,
               fs')))"

definition getNote :: "string \<Rightarrow> notes_file \<Rightarrow> response \<times> notes_file" where
  "getNote i fs =
     (case readNotesFile fs of
        (Inl e, fs') \<Rightarrow> (InternalError, fs')
      | (Inr notes, fs') \<Rightarrow>
          (case find (\<lambda>n. note_id n = i) notes of
             None \<Rightarrow> (NotFound, fs')
           | Some n \<Rightarrow> if deleted n then (NotFound, fs') else (NoteOk n, fs')))"

text \<open>\<open>POST /notes\<close>. After a successful validation both fields are texts; \<open>trim\<close> called on
  anything else would throw, which the handler answers as an internal error.\<close>

definition createNote ::
  "string \<Rightarrow> string \<Rightarrow> jsvalue \<Rightarrow> jsvalue \<Rightarrow> notes_file \<Rightarrow> response \<times> notes_file" where
  "createNote uuid now title_v content_v fs =
     (let validationErrors = validateNote title_v content_v in
      if length validationErrors > 0 then (ValidationFailed validationErrors, fs)
      else
        (case (title_v, content_v) of
           (JString t, JString c) \<Rightarrow>
             (let newNote = \<lparr>note_id = uuid, title = trim t, content = trim c,
                             createdAt = now, deleted = False\<rparr>
              in case readNotesFile fs of
                   (Inl e, fs') \<Rightarrow> (InternalError, fs')
                 | (Inr notes, fs') \<Rightarrow>
                     (Created newNote, writeNotesFile (notes @ [newNote]) fs'))
         | _ \<Rightarrow> (InternalError, fs)))"

text \<open>\<open>PUT /notes/:id\<close>.\<close>

definition updateNote ::
  "string \<Rightarrow> jsvalue \<Rightarrow> jsvalue \<Rightarrow> notes_file \<Rightarrow> response \<times> notes_file" where
  "updateNote noteId title_v content_v fs =
     (let validationErrors = validateNote title_v content_v in
      if length validationErrors > 0 then (ValidationFailed validationErrors, fs)
      else
        (case readNotesFile fs of
           (Inl e, fs') \<Rightarrow> (InternalError, fs')
         | (Inr notes, fs') \<Rightarrow>
             (case findIndex (\<lambda>n. note_id n = noteId) notes of
                None \<Rightarrow> (NotFound, fs')
              | Some noteIndex \<Rightarrow>
                  if deleted (notes ! noteIndex) then (NotFound, fs')
                  else
                    (case (title_v, content_v) of
                       (JString t, JString c) \<Rightarrow>
                         (let notes' = notes[noteIndex :=
                                (notes ! noteIndex)\<lparr>title := trim t, content := trim c\<rparr>]
                          in (NoteOk (notes' ! noteIndex), writeNotesFile notes' fs'))
                     | _ \<Rightarrow> (InternalError, fs')))))"

text \<open>\<open>DELETE /notes/:id\<close>.\<close>

definition deleteNote :: "string \<Rightarrow> notes_file \<Rightarrow> response \<times> notes_file" where
  "deleteNote noteId fs =
     (case readNotesFile fs of
        (Inl e, fs') \<Rightarrow> (InternalError, fs')
      | (Inr notes, fs') \<Rightarrow>
          (case findIndex (\<lambda>n. note_id n = noteId) notes of
             None \<Rightarrow> (NotFound, fs')
           | Some noteIndex \<Rightarrow>
               if deleted (notes ! noteIndex) then (NotFound, fs')
               else
                 (let notes' = notes[noteIndex := (notes ! noteIndex)\<lparr>deleted := True\<rparr>]
                  in (DeletedOk, writeNotesFile notes' fs'))))"

subsection \<open>The listing as the specification words it\<close>

text \<open>Step 2 of the pipeline: records with \<open>deleted = true\<close> are dropped unless
  \<open>includeDeleted\<close> is the text \<open>true\<close>.\<close>

definition visible_notes :: "query \<Rightarrow> Note list \<Rightarrow> Note list" where
  "visible_notes q notes =
     (if includeDeleted q = Some ''true'' then notes else filter (\<lambda>n. \<not> deleted n) notes)"

text \<open>The lower-cased text contains the lower-cased term as a substring.\<close>

definition contains_ci :: "string \<Rightarrow> string \<Rightarrow> bool" where
  "contains_ci text_s term_s = sublist (toLowerCase term_s) (toLowerCase text_s)"

text \<open>Step 3: when a search term is given, the records whose title or content contains it
  are kept.\<close>

definition spec_filtered :: "query \<Rightarrow> Note list \<Rightarrow> Note list" where
  "spec_filtered q notes =
     (case search q of
        None \<Rightarrow> visible_notes q notes
      | Some s \<Rightarrow>
          filter (\<lambda>n. contains_ci (title n) s \<or> contains_ci (content n) s)
            (visible_notes q notes))"

text \<open>The collection that a readable file holds (none yet when the file is missing), and
  the items of a listing.\<close>

definition stored :: "notes_file \<Rightarrow> Note list" where
  "stored fs = (case fs of Content notes \<Rightarrow> notes | _ \<Rightarrow> [])"

fun items_of :: "response \<Rightarrow> Note list" where
  "items_of (ListOk ns pg) = ns"
| "items_of _ = []"

text \<open>A number beyond every index of an array: at least \<open>2^53\<close>, or infinite.\<close>

definition big :: "jsnum \<Rightarrow> bool" where
  "big x = (case x of PosInf \<Rightarrow> True | Fin m \<Rightarrow> 2 ^ 53 \<le> m | _ \<Rightarrow> False)"

subsection \<open>Sample data\<close>

text \<open>Notes: the note of the README's example under a given id, seven and eleven visible
  ones, a visible one beside a deleted one, and a note about something else.\<close>

definition sample_note :: "string \<Rightarrow> bool \<Rightarrow> Note" where
  "sample_note i d =
     \<lparr>note_id = i, title = ''Project Plan'', content = ''Define MVP and deadlines'',
      createdAt = ''2025-06-27T08:15:30.000Z'', deleted = d\<rparr>"

definition seven_notes :: "Note list" where
  "seven_notes =
     map (\<lambda>i. sample_note i False) [''a'', ''b'', ''c'', ''d'', ''e'', ''f'', ''g'']"

definition eleven_notes :: "Note list" where
  "eleven_notes =
     seven_notes @ map (\<lambda>i. sample_note i False) [''h'', ''i'', ''j'', ''k'']"

definition eleven_after :: "Note list" where
  "eleven_after = eleven_notes[10 := sample_note ''k'' True]"

definition two_notes :: "Note list" where
  "two_notes = [sample_note ''a'' False, sample_note ''b'' True]"

definition other_note :: Note where
  "other_note = \<lparr>note_id = ''z'', title = ''Groceries'', content = ''Milk and eggs'',
     createdAt = ''2025-06-28T10:00:00.000Z'', deleted = False\<rparr>"

text \<open>The note that \<open>createNote\<close> makes of a padded \<open>Project Plan\<close>, and the third of the
  seven notes after an update.\<close>

definition fresh_note :: Note where
  "fresh_note = \<lparr>note_id = ''h'', title = ''Project Plan'', content = ''Define MVP'',
     createdAt = ''2025-06-27T08:15:30.000Z'', deleted = False\<rparr>"

definition updated_note :: Note where
  "updated_note = \<lparr>note_id = ''c'', title = ''New title'', content = ''Body'',
     createdAt = ''2025-06-27T08:15:30.000Z'', deleted = False\<rparr>"

text \<open>The digit 1 followed by 309 zeros: an integer beyond the range of the doubles.\<close>

definition huge_digits :: string where
  "huge_digits = CHR ''1'' # replicate 309 CHR ''0''"

text \<open>A title of one letter and 100 spaces.\<close>

definition padded_title :: string where
  "padded_title = CHR ''a'' # replicate 100 CHR '' ''"

text \<open>Queries: page and limit given; page and limit given or absent; a search term alone;
  \<open>includeDeleted=true\<close> alone, and with \<open>page=2\<close>.\<close>

definition page_query :: "string \<Rightarrow> string \<Rightarrow> query" where
  "page_query p l = \<lparr>page = Some p, limit = Some l, search = None, includeDeleted = None\<rparr>"

definition plain_query :: "string option \<Rightarrow> string option \<Rightarrow> query" where
  "plain_query p l = \<lparr>page = p, limit = l, search = None, includeDeleted = None\<rparr>"

definition search_query :: "string \<Rightarrow> query" where
  "search_query s = \<lparr>page = None, limit = None, search = Some s, includeDeleted = None\<rparr>"

definition all_query :: query where
  "all_query = \<lparr>page = None, limit = None, search = None, includeDeleted = Some ''true''\<rparr>"

definition page2_all_query :: query where
  "page2_all_query =
     \<lparr>page = Some ''2'', limit = None, search = None, includeDeleted = Some ''true''\<rparr>"

section \<open>Properties\<close>

subsection \<open>Numbers\<close>

text \<open>Below \<open>2^53\<close> in magnitude an integer is a double; from \<open>2^53\<close> on, its double is
  at least \<open>2^53\<close> or infinite.\<close>

lemma round_int_exact:
  assumes "0 \<le> a" and "a < 2 ^ 53"
  shows "round_int a = a"
proof -
  from assms have "bitlen a \<le> 53"
    by (simp add: bitlen_le_iff_power)
  then show ?thesis
    by (simp add: round_int_def)
qed

lemma round_double_exact:
  assumes "\<bar>n\<bar> < 2 ^ 53"
  shows "round_double n = Fin n"
proof -
  from assms have r: "round_int \<bar>n\<bar> = \<bar>n\<bar>"
    by (intro round_int_exact) simp_all
  from assms have "\<bar>n\<bar> < 2 ^ nat 1024"
    by (rule less_trans) simp
  then have "bitlen \<bar>n\<bar> \<le> 1024"
    by (simp only: bitlen_le_iff_power) simp
  then show ?thesis
    by (simp add: round_double_def r Let_def mult_sgn_abs)
qed

lemma round_int_big:
  assumes "2 ^ 53 \<le> a"
  shows "2 ^ 53 \<le> round_int a"
proof -
  define e where "e = nat (bitlen a - 53)"
  define q where "q = a div 2 ^ e"
  from assms have pos: "0 < a"
    by (rule less_le_trans [rotated]) simp
  have "54 \<le> bitlen a"
    using assms by (simp add: bitlen_ge_iff_power)
  then have b: "nat (bitlen a - 1) = 52 + e" and e: "1 \<le> e"
    by (simp_all add: e_def)
  from bitlen_bounds [OF pos] have "(2::int) ^ 52 * 2 ^ e \<le> a"
    unfolding b power_add by simp
  then have "(2 ^ 52 * 2 ^ e) div 2 ^ e \<le> a div (2::int) ^ e"
    by (rule zdiv_mono1) simp
  then have q: "2 ^ 52 \<le> q"
    unfolding q_def by simp
  have "(2::int) ^ 53 = 2 ^ 52 * 2 ^ 1"
    by simp
  also have "\<dots> \<le> 2 ^ 52 * 2 ^ e"
    using e by (intro mult_left_mono power_increasing) simp_all
  also have "\<dots> \<le> q * 2 ^ e"
    using q by (intro mult_right_mono) simp_all
  also have "\<dots> \<le> round_int a"
    by (simp add: round_int_def Let_def e_def q_def)
  finally show ?thesis .
qed

lemma round_double_big:
  assumes "2 ^ 53 \<le> n"
  shows "big (round_double n)"
proof -
  from assms have pos: "0 < n"
    by (rule less_le_trans [rotated]) simp
  then have "\<bar>n\<bar> = n" "sgn n = 1" "\<not> n < 0"
    by simp_all
  with round_int_big [OF assms] show ?thesis
    by (simp add: round_double_def Let_def big_def)
qed

lemma round_double_cases:
  assumes "0 \<le> n"
  obtains "n < 2 ^ 53" "round_double n = Fin n" | "2 ^ 53 \<le> n" "big (round_double n)"
proof (cases "n < 2 ^ 53")
  case True
  with assms have "round_double n = Fin n"
    by (intro round_double_exact) simp
  with True that show thesis by blast
next
  case False
  then have "2 ^ 53 \<le> n" by simp
  with that round_double_big show thesis by blast
qed

lemma num_NaN [simp]:
  "num_add a NaN = NaN" "num_sub a NaN = NaN" "num_mul a NaN = NaN"
  by (cases a; simp)+

lemma big_add:
  assumes "big x" and "0 < l"
  shows "big (num_add x (Fin l))"
proof (cases x)
  case (Fin m)
  with assms have "2 ^ 53 \<le> m + l" by (simp add: big_def)
  with Fin show ?thesis by (simp add: round_double_big)
qed (use assms in \<open>simp_all add: big_def\<close>)

lemma big_mul:
  assumes "big x" and "0 < l"
  shows "big (num_mul x (Fin l))"
proof (cases x)
  case (Fin m)
  with assms have m: "2 ^ 53 \<le> m" by (simp add: big_def)
  then have "0 \<le> m" by (rule order_trans [rotated]) simp
  with assms(2) have "m \<le> m * l"
    using mult_left_mono [of 1 l m] by simp
  with m have "2 ^ 53 \<le> m * l" by (rule order_trans)
  with Fin show ?thesis by (simp add: round_double_big)
qed (use assms in \<open>simp_all add: big_def\<close>)

subsection \<open>Library functions of the model\<close>

lemma includes_str_sublist: "includes_str hay needle = sublist needle hay"
  by (induction hay) (auto simp: sublist_Cons_right)

lemma search_match_contains:
  "search_match (toLowerCase s) =
     (\<lambda>n. contains_ci (title n) s \<or> contains_ci (content n) s)"
  by (rule ext) (simp add: search_match_def contains_ci_def includes_str_sublist)

lemma contains_ci_empty: "contains_ci text_s []"
  by (simp add: contains_ci_def toLowerCase_def)

lemma includeDeleted_arg_true:
  "(includeDeleted_arg q = ''true'') = (includeDeleted q = Some ''true'')"
  by (simp add: includeDeleted_arg_def split: option.splits)

lemma slice_bound_big:
  assumes "big x" and "len < 2 ^ 53"
  shows "slice_bound len x = len"
  using assms by (cases x) (simp_all add: big_def slice_bound_def)

lemma slice_big_big:
  assumes "big x" and "big y" and "int (length xs) < 2 ^ 53"
  shows "slice xs x y = []"
  using assms by (simp add: slice_def slice_bound_big)

lemma slice_fin_big:
  assumes "0 \<le> a" and "big y" and "int (length xs) < 2 ^ 53"
  shows "slice xs (Fin a) y = drop (nat a) xs"
  using assms by (simp add: slice_def slice_bound_big) (simp add: slice_bound_def min_def)

lemma slice_page:
  assumes "0 \<le> a" "0 \<le> l"
  shows "slice xs (Fin a) (Fin (a + l)) = take (nat l) (drop (nat a) xs)"
proof (cases "a < int (length xs)")
  case True
  show ?thesis
  proof (cases "a + l \<le> int (length xs)")
    case le: True
    with True assms show ?thesis
      by (simp add: slice_def slice_bound_def Let_def min_def max_def)
  next
    case gt: False
    with True assms have "nat l \<ge> length xs - nat a" by linarith
    with gt True assms show ?thesis
      by (simp add: slice_def slice_bound_def Let_def min_def max_def nat_diff_distrib)
  qed
next
  case False
  with assms show ?thesis
    by (simp add: slice_def slice_bound_def Let_def min_def max_def)
qed

text \<open>The page that the handler computes in doubles is the page computed exactly: once a
  bound leaves the exact range it is beyond the array, in the doubles as in the integers.\<close>

lemma slice_page_double:
  assumes p: "0 < p" and l: "0 < l" and len: "int (length xs) < 2 ^ 53"
  shows "slice xs (num_mul (num_sub (Fin p) (Fin 1)) (Fin l))
           (num_add (num_mul (num_sub (Fin p) (Fin 1)) (Fin l)) (Fin l)) =
         take (nat l) (drop (nat ((p - 1) * l)) xs)"
proof -
  let ?a = "(p - 1) * l"
  from p l have a0: "0 \<le> ?a" and p0: "0 \<le> p - 1" and ge: "p - 1 \<le> ?a"
    using mult_left_mono [of 1 l "p - 1"] by simp_all
  have empty: "take (nat l) (drop (nat ?a) xs) = []" if "2 ^ 53 \<le> ?a"
    using that len by simp
  have bigcase: ?thesis
    if b: "big (num_mul (num_sub (Fin p) (Fin 1)) (Fin l))" and a: "2 ^ 53 \<le> ?a"
    using slice_big_big [OF b big_add [OF b l] len] empty [OF a] by simp
  from p0 show ?thesis
  proof (cases rule: round_double_cases)
    case 1
    then have s: "num_sub (Fin p) (Fin 1) = Fin (p - 1)" by simp
    from a0 show ?thesis
    proof (cases rule: round_double_cases)
      case 1
      then have m: "num_mul (num_sub (Fin p) (Fin 1)) (Fin l) = Fin ?a"
        unfolding s by simp
      from a0 l have "0 \<le> ?a + l" by simp
      then show ?thesis
      proof (cases rule: round_double_cases)
        case 1
        then show ?thesis
          using slice_page [OF a0, of l xs] l unfolding m by simp
      next
        case 2
        with len have "int (length xs) - ?a \<le> l" by simp
        then have "length xs - nat ?a \<le> nat l" by linarith
        then have "take (nat l) (drop (nat ?a) xs) = drop (nat ?a) xs"
          by simp
        with 2 slice_fin_big [OF a0 _ len] show ?thesis
          unfolding m by simp
      qed
    next
      case 2
      then have "big (num_mul (num_sub (Fin p) (Fin 1)) (Fin l))"
        unfolding s by simp
      then show ?thesis using 2(1) by (rule bigcase)
    qed
  next
    case 2
    then have "big (num_sub (Fin p) (Fin 1))" by simp
    then have "big (num_mul (num_sub (Fin p) (Fin 1)) (Fin l))"
      using l by (rule big_mul)
    moreover from 2(1) ge have "2 ^ 53 \<le> ?a" by (rule order_trans)
    ultimately show ?thesis by (rule bigcase)
  qed
qed

lemma slice_NaN: "slice xs NaN NaN = []"
  by (simp add: slice_def slice_bound_def)


lemma parseInt_string_values:
  "parseInt_string ''1'' = Fin 1"
  "parseInt_string ''2'' = Fin 2"
  "parseInt_string ''3'' = Fin 3"
  "parseInt_string ''4'' = Fin 4"
  "parseInt_string ''10'' = Fin 10"
  "parseInt_string ''abc'' = NaN"
  by (simp_all add: parseInt_string_def is_ws_def is_digit_def digit_val_def digits_value_def
      round_double_exact)

text \<open>Beyond \<open>2^53\<close> \<open>parseInt\<close> rounds, and beyond the largest double it returns
  \<open>Infinity\<close>.\<close>

lemma parseInt_string_rounds:
  "parseInt_string ''9007199254740993'' = Fin 9007199254740992"
  by code_simp

lemma parseInt_string_overflows: "parseInt_string huge_digits = PosInf"
  by code_simp

subsection \<open>Listing\<close>

text \<open>The filter of the handler is the filter of the specification: an empty search term,
  which the handler skips, is contained in every text.\<close>

lemma filterNotes_spec: "filterNotes q notes = spec_filtered q notes"
proof (cases "search q")
  case None
  then show ?thesis
    by (simp add: filterNotes_def spec_filtered_def visible_notes_def includeDeleted_arg_true)
next
  case (Some s)
  show ?thesis
  proof (cases "s = []")
    case True
    with Some show ?thesis
      by (simp add: filterNotes_def spec_filtered_def visible_notes_def
          includeDeleted_arg_true contains_ci_empty)
  next
    case False
    with Some show ?thesis
      by (simp add: filterNotes_def spec_filtered_def visible_notes_def
          includeDeleted_arg_true search_match_contains)
  qed
qed


lemma listNotes_Content:
  "listNotes q (Content notes) =
     (ListOk (slice (filterNotes q notes)
                (num_mul (num_sub (parseInt (page_arg q)) (Fin 1)) (parseInt (limit_arg q)))
                (num_add (num_mul (num_sub (parseInt (page_arg q)) (Fin 1))
                            (parseInt (limit_arg q))) (parseInt (limit_arg q))))
        \<lparr>page_num = json_num (parseInt (page_arg q)),
         limit_num = json_num (parseInt (limit_arg q)),
         total = length (filterNotes q notes),
         totalPages = ceil_quotient (length (filterNotes q notes)) (parseInt (limit_arg q))\<rparr>,
      Content notes)"
  by (simp add: listNotes_def readNotesFile_def Let_def)





lemma spec_filtered_plain: "spec_filtered (plain_query p l) seven_notes = seven_notes"
  by (simp add: spec_filtered_def visible_notes_def plain_query_def seven_notes_def
      sample_note_def)

lemma length_seven: "length seven_notes = 7"
  by (simp add: seven_notes_def)

text \<open>With \<open>limit\<close> beyond the doubles the start index is \<open>0 * Infinity\<close>, which is
  \<open>NaN\<close>: no items, a \<open>null\<close> limit and no page.\<close>

lemma listNotes_infinite_limit:
  "listNotes (plain_query None (Some huge_digits)) (Content seven_notes) =
     (ListOk [] \<lparr>page_num = Some 1, limit_num = None, total = 7, totalPages = Some 0\<rparr>,
      Content seven_notes)"
  by (simp add: listNotes_Content filterNotes_spec spec_filtered_plain length_seven)
     (simp add: plain_query_def page_arg_def limit_arg_def parseInt_string_overflows
        round_double_exact slice_NaN ceil_quotient_def json_num_def)

lemma filterNotes_page_update [simp]:
  "filterNotes (q\<lparr>page := p\<rparr>) notes = filterNotes q notes"
  by (simp add: filterNotes_def includeDeleted_arg_def)

lemma filterNotes_limit_update [simp]:
  "filterNotes (q\<lparr>limit := l\<rparr>) notes = filterNotes q notes"
  by (simp add: filterNotes_def includeDeleted_arg_def)

text \<open>
  Claim C3, as the handler has it. An absent \<open>page\<close> behaves exactly as \<open>page=1\<close> and an
  absent \<open>limit\<close> exactly as \<open>limit=10\<close>, whatever the other parameters and the file are.
  A present value in which \<open>parseInt\<close> finds no number is not replaced by the default: the
  items are empty and the number is reported as \<open>null\<close> (with \<open>totalPages\<close>, when it is
  the limit).
\<close>

theorem listNotes_absent_defaults:
  "listNotes (q\<lparr>page := None\<rparr>) fs = listNotes (q\<lparr>page := Some ''1''\<rparr>) fs \<and>
   listNotes (q\<lparr>limit := None\<rparr>) fs = listNotes (q\<lparr>limit := Some ''10''\<rparr>) fs \<and>
   (parseInt (page_arg q) = NaN \<longrightarrow>
      listNotes q (Content notes) =
        (ListOk []
           \<lparr>page_num = None, limit_num = json_num (parseInt (limit_arg q)),
            total = length (spec_filtered q notes),
            totalPages = ceil_quotient (length (spec_filtered q notes))
                           (parseInt (limit_arg q))\<rparr>,
         Content notes)) \<and>
   (parseInt (limit_arg q) = NaN \<longrightarrow>
      listNotes q (Content notes) =
        (ListOk []
           \<lparr>page_num = json_num (parseInt (page_arg q)), limit_num = None,
            total = length (spec_filtered q notes), totalPages = None\<rparr>,
         Content notes))"
proof -
  have pg: "listNotes (q\<lparr>page := None\<rparr>) fs = listNotes (q\<lparr>page := Some ''1''\<rparr>) fs"
    by (simp add: listNotes_def page_arg_def limit_arg_def parseInt_string_values
        split: prod.splits sum.splits)
  have lm: "listNotes (q\<lparr>limit := None\<rparr>) fs = listNotes (q\<lparr>limit := Some ''10''\<rparr>) fs"
    by (simp add: listNotes_def page_arg_def limit_arg_def parseInt_string_values
        split: prod.splits sum.splits)
  have pn: "parseInt (page_arg q) = NaN \<longrightarrow>
      listNotes q (Content notes) =
        (ListOk []
           \<lparr>page_num = None, limit_num = json_num (parseInt (limit_arg q)),
            total = length (spec_filtered q notes),
            totalPages = ceil_quotient (length (spec_filtered q notes))
                           (parseInt (limit_arg q))\<rparr>,
         Content notes)"
    by (simp add: listNotes_Content filterNotes_spec slice_NaN json_num_def)
  have ln: "parseInt (limit_arg q) = NaN \<longrightarrow>
      listNotes q (Content notes) =
        (ListOk []
           \<lparr>page_num = json_num (parseInt (page_arg q)), limit_num = None,
            total = length (spec_filtered q notes), totalPages = None\<rparr>,
         Content notes)"
    by (simp add: listNotes_Content filterNotes_spec slice_NaN json_num_def
        ceil_quotient_def)
  from pg lm pn ln show ?thesis by blast
qed

text \<open>Claim C3 as it is stated fails: with seven visible notes, \<open>page=abc\<close> gives no items
  and a \<open>null\<close> page, where \<open>page=1\<close>, \<open>limit=10\<close> gives the seven notes.\<close>

theorem listNotes_non_numeric_counterexample:
  "listNotes (plain_query (Some ''abc'') None) (Content seven_notes) =
     (ListOk [] \<lparr>page_num = None, limit_num = Some 10, total = 7, totalPages = Some 1\<rparr>,
      Content seven_notes) \<and>
   listNotes (plain_query (Some ''1'') (Some ''10'')) (Content seven_notes) =
     (ListOk seven_notes
        \<lparr>page_num = Some 1, limit_num = Some 10, total = 7, totalPages = Some 1\<rparr>,
      Content seven_notes)"
proof -
  have a: "listNotes (plain_query (Some ''abc'') None) (Content seven_notes) =
     (ListOk [] \<lparr>page_num = None, limit_num = Some 10, total = 7, totalPages = Some 1\<rparr>,
      Content seven_notes)"
    by (simp add: listNotes_Content filterNotes_spec spec_filtered_plain length_seven)
       (simp add: plain_query_def page_arg_def limit_arg_def parseInt_string_values
        slice_NaN ceil_quotient_def json_num_def)
  have b: "listNotes (plain_query (Some ''1'') (Some ''10'')) (Content seven_notes) =
     (ListOk seven_notes
        \<lparr>page_num = Some 1, limit_num = Some 10, total = 7, totalPages = Some 1\<rparr>,
      Content seven_notes)"
    by (simp add: listNotes_Content filterNotes_spec spec_filtered_plain length_seven)
       (simp add: plain_query_def page_arg_def limit_arg_def parseInt_string_values
        round_double_exact slice_def slice_bound_def length_seven ceil_quotient_def
        json_num_def)
  from a b show ?thesis by simp
qed

text \<open>The defaults and the two unreadable values on the seven notes.\<close>

theorem listNotes_absent_defaults_witness:
  "parseInt (page_arg (plain_query (Some ''abc'') None)) = NaN \<and>
   listNotes (plain_query (Some ''abc'') None) (Content seven_notes) =
     (ListOk [] \<lparr>page_num = None, limit_num = Some 10, total = 7, totalPages = Some 1\<rparr>,
      Content seven_notes) \<and>
   parseInt (limit_arg (plain_query None (Some ''abc''))) = NaN \<and>
   listNotes (plain_query None (Some ''abc'')) (Content seven_notes) =
     (ListOk [] \<lparr>page_num = Some 1, limit_num = None, total = 7, totalPages = None\<rparr>,
      Content seven_notes) \<and>
   listNotes (plain_query None None) (Content seven_notes) =
     listNotes (plain_query (Some ''1'') (Some ''10'')) (Content seven_notes)"
proof -
  have pa: "parseInt (page_arg (plain_query (Some ''abc'') l)) = NaN"
    "parseInt (limit_arg (plain_query p (Some ''abc''))) = NaN"
    "parseInt (page_arg (plain_query None l)) = Fin 1"
    "parseInt (limit_arg (plain_query p None)) = Fin 10" for p l
    by (simp_all add: plain_query_def page_arg_def limit_arg_def parseInt_string_values)
  have u: "(plain_query p l)\<lparr>page := p'\<rparr> = plain_query p' l"
    "(plain_query p l)\<lparr>limit := l'\<rparr> = plain_query p l'" for p l p' l'
    by (simp_all add: plain_query_def)
  have d: "listNotes (plain_query None None) (Content seven_notes) =
     listNotes (plain_query (Some ''1'') (Some ''10'')) (Content seven_notes)"
    using listNotes_absent_defaults [of "plain_query None None" "Content seven_notes"]
      listNotes_absent_defaults [of "plain_query (Some ''1'') None" "Content seven_notes"]
    by (simp add: u)
  have a: "listNotes (plain_query (Some ''abc'') None) (Content seven_notes) =
     (ListOk [] \<lparr>page_num = None, limit_num = Some 10, total = 7, totalPages = Some 1\<rparr>,
      Content seven_notes)"
    using listNotes_absent_defaults [of "plain_query (Some ''abc'') None" _ seven_notes]
    by (simp add: pa spec_filtered_plain length_seven ceil_quotient_def json_num_def)
  have b: "listNotes (plain_query None (Some ''abc'')) (Content seven_notes) =
     (ListOk [] \<lparr>page_num = Some 1, limit_num = None, total = 7, totalPages = None\<rparr>,
      Content seven_notes)"
    using listNotes_absent_defaults [of "plain_query None (Some ''abc'')" _ seven_notes]
    by (simp add: pa spec_filtered_plain length_seven ceil_quotient_def json_num_def)
  from a b d show ?thesis
    by (simp add: pa)
qed

subsection \<open>Validation\<close>

lemma messages_distinct:
  "title_too_long \<noteq> title_required" "title_too_long \<noteq> content_required"
  "title_required \<noteq> content_required"
  by (simp_all add: title_too_long_def title_required_def content_required_def)

lemma trim_Nil: "trim [] = []"
  by (simp add: trim_def)

lemma is_ws_space: "is_ws CHR '' ''" "\<not> is_ws CHR ''a''"
  by (simp_all add: is_ws_def)

lemma dropWhile_spaces:
  "dropWhile is_ws (replicate n CHR '' '' @ xs) = dropWhile is_ws xs"
  by (induction n) (simp_all add: is_ws_space)

lemma trim_padded: "trim padded_title = ''a''"
  by (simp add: padded_title_def trim_def is_ws_space dropWhile_spaces)

lemma trim_spaces: "trim (replicate n CHR '' '') = []"
  using dropWhile_spaces [of n "[]"] by (simp add: trim_def)

lemma padded_nonempty: "padded_title \<noteq> []"
  by (simp add: padded_title_def)

lemma length_padded: "length padded_title = 101"
  by (simp add: padded_title_def)

text \<open>
  Claim C2, as the validator has it. For every title and content, the violation "title too
  long" is reported exactly when the title is a text that is not empty after trimming and
  whose length before trimming exceeds 100.
\<close>

theorem validateNote_too_long_raw_length:
  "(title_too_long \<in> set (validateNote title_v content_v)) =
     (\<exists>s. title_v = JString s \<and> trim s \<noteq> [] \<and> 100 < length s)"
proof (cases title_v)
  case (JString s)
  then show ?thesis
    by (auto simp: validateNote_def messages_distinct trim_Nil)
qed (simp_all add: validateNote_def messages_distinct)

text \<open>Claim C2 as it is stated fails: the letter \<open>a\<close> followed by 100 spaces has length 1
  after trimming, and the violation is reported.\<close>

theorem validateNote_post_trim_counterexample:
  "length (trim padded_title) \<le> 100 \<and>
   title_too_long \<in> set (validateNote (JString padded_title) (JString ''c''))"
  by (simp add: validateNote_def trim_padded length_padded padded_nonempty)

text \<open>The padded title is reported; 101 spaces are not (the title is then missing).\<close>

theorem validateNote_too_long_raw_length_witness:
  "title_too_long \<in> set (validateNote (JString padded_title) (JString ''c'')) \<and>
   trim padded_title = ''a'' \<and> length padded_title = 101 \<and>
   title_too_long \<notin> set (validateNote (JString (replicate 101 CHR '' '')) (JString ''c''))"
  using validateNote_too_long_raw_length [of "JString padded_title" "JString ''c''"]
    validateNote_too_long_raw_length [of "JString (replicate 101 CHR '' '')" "JString ''c''"]
  by (simp add: trim_padded length_padded trim_spaces)

subsection \<open>Locating a note\<close>

lemma findIndex_None: "(findIndex P xs = None) = (\<forall>x\<in>set xs. \<not> P x)"
  by (induction xs) auto

lemma findIndex_Some:
  "findIndex P xs = Some k \<Longrightarrow> k < length xs \<and> P (xs ! k) \<and> (\<forall>j<k. \<not> P (xs ! j))"
proof (induction xs arbitrary: k)
  case Nil
  then show ?case by simp
next
  case (Cons x xs)
  show ?case
  proof (cases "P x")
    case True
    with Cons.prems show ?thesis by simp
  next
    case False
    with Cons.prems obtain k' where k': "findIndex P xs = Some k'" "k = Suc k'"
      by auto
    from Cons.IH [OF k'(1)] False k'(2) show ?thesis
      by (auto simp: less_Suc_eq_0_disj)
  qed
qed

lemma find_findIndex: "find P xs = map_option (\<lambda>k. xs ! k) (findIndex P xs)"
  by (induction xs) (auto simp: option.map_comp comp_def)

lemma findIndex_update:
  "findIndex P xs = Some k \<Longrightarrow> P y \<Longrightarrow> findIndex P (xs[k := y]) = Some k"
proof (induction xs arbitrary: k)
  case Nil
  then show ?case by simp
next
  case (Cons x xs)
  then show ?case
    by (cases "P x") auto
qed

lemma find_SomeD:
  assumes "find P xs = Some x"
  obtains k where "findIndex P xs = Some k" "xs ! k = x"
  using assms by (auto simp: find_findIndex)

subsection \<open>Create, update, delete\<close>

lemma deleteNote_visible:
  assumes "findIndex (\<lambda>n. note_id n = i) notes = Some k" "\<not> deleted (notes ! k)"
  shows "deleteNote i (Content notes) =
           (DeletedOk, Content (notes[k := (notes ! k)\<lparr>deleted := True\<rparr>]))"
  using assms by (simp add: deleteNote_def readNotesFile_def writeNotesFile_def)

lemma deleteNote_hidden:
  assumes "findIndex (\<lambda>n. note_id n = i) notes = Some k" "deleted (notes ! k)"
  shows "deleteNote i (Content notes) = (NotFound, Content notes)"
  using assms by (simp add: deleteNote_def readNotesFile_def)

lemma deleteNote_absent:
  assumes "findIndex (\<lambda>n. note_id n = i) notes = None"
  shows "deleteNote i (Content notes) = (NotFound, Content notes)"
  using assms by (simp add: deleteNote_def readNotesFile_def)

text \<open>
  Claim C8. For every collection and every id, \<open>deleteNote\<close> answers NotFound, and leaves
  the collection as it was, when no note has the id or when the note with the id (the first
  one, as \<open>findIndex\<close> locates it) already has \<open>deleted = true\<close>. Hence deleting a visible
  note twice: the first call succeeds, the second answers NotFound and changes nothing.
\<close>

theorem deleteNote_not_found:
  "(i \<notin> note_id ` set notes \<or>
      (\<exists>n. find (\<lambda>n. note_id n = i) notes = Some n \<and> deleted n)
    \<longrightarrow> deleteNote i (Content notes) = (NotFound, Content notes)) \<and>
   ((\<exists>n. find (\<lambda>n. note_id n = i) notes = Some n \<and> \<not> deleted n)
    \<longrightarrow> (\<exists>notes'. deleteNote i (Content notes) = (DeletedOk, Content notes') \<and>
                   deleteNote i (Content notes') = (NotFound, Content notes')))"
proof (intro conjI impI)
  assume "i \<notin> note_id ` set notes \<or>
      (\<exists>n. find (\<lambda>n. note_id n = i) notes = Some n \<and> deleted n)"
  then show "deleteNote i (Content notes) = (NotFound, Content notes)"
  proof
    assume "i \<notin> note_id ` set notes"
    then have "findIndex (\<lambda>n. note_id n = i) notes = None"
      by (auto simp: findIndex_None)
    then show ?thesis by (rule deleteNote_absent)
  next
    assume "\<exists>n. find (\<lambda>n. note_id n = i) notes = Some n \<and> deleted n"
    then obtain n k where "findIndex (\<lambda>n. note_id n = i) notes = Some k" "deleted (notes ! k)"
      by (auto elim: find_SomeD)
    then show ?thesis by (rule deleteNote_hidden)
  qed
next
  assume "\<exists>n. find (\<lambda>n. note_id n = i) notes = Some n \<and> \<not> deleted n"
  then obtain k where k: "findIndex (\<lambda>n. note_id n = i) notes = Some k"
    and v: "\<not> deleted (notes ! k)"
    by (auto elim: find_SomeD)
  let ?notes' = "notes[k := (notes ! k)\<lparr>deleted := True\<rparr>]"
  from findIndex_Some [OF k] have lt: "k < length notes" and idk: "note_id (notes ! k) = i"
    by simp_all
  have first: "deleteNote i (Content notes) = (DeletedOk, Content ?notes')"
    using k v by (rule deleteNote_visible)
  have "findIndex (\<lambda>n. note_id n = i) ?notes' = Some k"
    using k idk by (simp add: findIndex_update)
  moreover have "deleted (?notes' ! k)"
    using lt by simp
  ultimately have "deleteNote i (Content ?notes') = (NotFound, Content ?notes')"
    by (rule deleteNote_hidden)
  with first show "\<exists>notes'. deleteNote i (Content notes) = (DeletedOk, Content notes') \<and>
                   deleteNote i (Content notes') = (NotFound, Content notes')"
    by blast
qed

text \<open>An absent id, an already deleted note, and a visible note deleted twice.\<close>

theorem deleteNote_not_found_witness:
  "''zzz'' \<notin> note_id ` set two_notes \<and>
   deleteNote ''zzz'' (Content two_notes) = (NotFound, Content two_notes) \<and>
   find (\<lambda>n. note_id n = ''b'') two_notes = Some (sample_note ''b'' True) \<and>
   deleted (sample_note ''b'' True) \<and>
   deleteNote ''b'' (Content two_notes) = (NotFound, Content two_notes) \<and>
   find (\<lambda>n. note_id n = ''a'') two_notes = Some (sample_note ''a'' False) \<and>
   \<not> deleted (sample_note ''a'' False) \<and>
   (\<exists>notes'. deleteNote ''a'' (Content two_notes) = (DeletedOk, Content notes') \<and>
              deleteNote ''a'' (Content notes') = (NotFound, Content notes'))"
proof -
  have h: "''zzz'' \<notin> note_id ` set two_notes"
    "find (\<lambda>n. note_id n = ''b'') two_notes = Some (sample_note ''b'' True)"
    "deleted (sample_note ''b'' True)"
    "find (\<lambda>n. note_id n = ''a'') two_notes = Some (sample_note ''a'' False)"
    "\<not> deleted (sample_note ''a'' False)"
    by (simp_all add: two_notes_def sample_note_def)
  from h deleteNote_not_found [of "''zzz''" two_notes]
    deleteNote_not_found [of "''b''" two_notes]
    deleteNote_not_found [of "''a''" two_notes]
  show ?thesis by simp
qed

text \<open>
  Claim C5. For every title and content with at least one violation, \<open>createNote\<close> and
  \<open>updateNote\<close> answer ValidationFailed with the list of violations and leave the file as
  it was, whatever the file holds and whatever the id is: validation comes before the
  lookup, so an absent id does not turn the answer into NotFound.
\<close>

theorem validation_failure_leaves_store:
  assumes "validateNote title_v content_v \<noteq> []"
  shows "createNote uuid now title_v content_v fs =
           (ValidationFailed (validateNote title_v content_v), fs) \<and>
         updateNote noteId title_v content_v fs =
           (ValidationFailed (validateNote title_v content_v), fs)"
  using assms by (simp add: createNote_def updateNote_def Let_def)

text \<open>A blank title and a missing content: a missing file is not even created, and an
  absent id is answered with the violations.\<close>

theorem validation_failure_leaves_store_witness:
  "validateNote (JString ''  '') JUndefined = [title_required, content_required] \<and>
   createNote ''u1'' ''2025-06-27T08:15:30.000Z'' (JString ''  '') JUndefined Missing =
     (ValidationFailed [title_required, content_required], Missing) \<and>
   ''zzz'' \<notin> note_id ` set seven_notes \<and>
   updateNote ''zzz'' (JString ''  '') JUndefined (Content seven_notes) =
     (ValidationFailed [title_required, content_required], Content seven_notes)"
proof -
  have v: "validateNote (JString ''  '') JUndefined = [title_required, content_required]"
    by (simp add: validateNote_def trim_def is_ws_def)
  have a: "''zzz'' \<notin> note_id ` set seven_notes"
    by (simp add: seven_notes_def sample_note_def)
  from v a
    validation_failure_leaves_store [of "JString ''  ''" JUndefined "''u1''"
      "''2025-06-27T08:15:30.000Z''" Missing]
    validation_failure_leaves_store [of "JString ''  ''" JUndefined _ _ "Content seven_notes"
      "''zzz''"]
  show ?thesis by simp
qed

text \<open>
  Claim C10. When the file exists, \<open>listNotes\<close> and \<open>getNote\<close> leave it as it was, for
  every query and every id.
\<close>

theorem reads_leave_store:
  assumes "fs \<noteq> Missing"
  shows "snd (listNotes q fs) = fs \<and> snd (getNote i fs) = fs"
  using assms
  by (cases fs)
    (simp_all add: listNotes_def getNote_def readNotesFile_def Let_def split: option.splits)

text \<open>A page beyond the last one and an id that no note has.\<close>

theorem reads_leave_store_witness:
  "Content seven_notes \<noteq> Missing \<and>
   snd (listNotes (page_query ''4'' ''3'') (Content seven_notes)) = Content seven_notes \<and>
   snd (getNote ''zzz'' (Content seven_notes)) = Content seven_notes"
  using reads_leave_store [of "Content seven_notes" "page_query ''4'' ''3''" "''zzz''"]
  by simp

lemma validateNote_valid:
  assumes "validateNote title_v content_v = []"
  obtains t c where "title_v = JString t" "content_v = JString c"
    "trim t \<noteq> []" "length t \<le> 100" "trim c \<noteq> []"
proof -
  from assms have "is_string title_v" "is_string content_v"
    by (auto simp: validateNote_def split: if_splits)
  then obtain t c where tc: "title_v = JString t" "content_v = JString c"
    by (cases title_v; cases content_v) auto
  with assms have "trim t \<noteq> []" "length t \<le> 100" "trim c \<noteq> []"
    by (auto simp: validateNote_def split: if_splits)
  with tc that show thesis by blast
qed

lemma find_snoc:
  "\<forall>x\<in>set xs. \<not> P x \<Longrightarrow> P y \<Longrightarrow> find P (xs @ [y]) = Some y"
  by (induction xs) auto

lemma readNotesFile_stored:
  "fs \<noteq> Unreadable \<Longrightarrow> readNotesFile fs = (Inr (stored fs), Content (stored fs))"
  by (cases fs) (simp_all add: readNotesFile_def stored_def writeNotesFile_def)

text \<open>
  Claim C6. For every valid title and content, a readable file and a fresh identifier,
  \<open>createNote\<close> answers with a note whose title and content are the trimmed inputs, whose
  \<open>deleted\<close> is false and whose \<open>createdAt\<close> is the time stamp taken at creation, appends
  it to the collection, and \<open>getNote\<close> on the returned id then answers with that same note.
\<close>

theorem createNote_getNote_roundtrip:
  assumes "validateNote title_v content_v = []" and "fs \<noteq> Unreadable"
    and "uuid \<notin> note_id ` set (stored fs)"
  shows "\<exists>t c n. title_v = JString t \<and> content_v = JString c \<and>
           n = \<lparr>note_id = uuid, title = trim t, content = trim c,
                createdAt = now, deleted = False\<rparr> \<and>
           createNote uuid now title_v content_v fs = (Created n, Content (stored fs @ [n])) \<and>
           getNote (note_id n) (Content (stored fs @ [n])) =
             (NoteOk n, Content (stored fs @ [n]))"
proof -
  from assms(1) obtain t c where tc: "title_v = JString t" "content_v = JString c"
    by (rule validateNote_valid)
  define n where "n = \<lparr>note_id = uuid, title = trim t, content = trim c,
                createdAt = now, deleted = False\<rparr>"
  have cr: "createNote uuid now title_v content_v fs = (Created n, Content (stored fs @ [n]))"
    using assms(1,2) tc
    by (simp add: createNote_def readNotesFile_stored writeNotesFile_def n_def Let_def)
  have "find (\<lambda>m. note_id m = uuid) (stored fs @ [n]) = Some n"
    using assms(3) by (intro find_snoc) (auto simp: n_def)
  then have "getNote (note_id n) (Content (stored fs @ [n])) =
             (NoteOk n, Content (stored fs @ [n]))"
    by (simp add: getNote_def readNotesFile_def n_def)
  with cr tc n_def show ?thesis by blast
qed

text \<open>Creating a note after the seven, with padded inputs, and reading it back.\<close>

theorem createNote_getNote_roundtrip_witness:
  "validateNote (JString ''  Project Plan '') (JString ''Define MVP  '') = [] \<and>
   Content seven_notes \<noteq> Unreadable \<and> ''h'' \<notin> note_id ` set (stored (Content seven_notes)) \<and>
   createNote ''h'' ''2025-06-27T08:15:30.000Z'' (JString ''  Project Plan '')
       (JString ''Define MVP  '') (Content seven_notes) =
     (Created fresh_note, Content (seven_notes @ [fresh_note])) \<and>
   getNote ''h'' (Content (seven_notes @ [fresh_note])) =
     (NoteOk fresh_note, Content (seven_notes @ [fresh_note]))"
proof -
  have tr: "trim ''  Project Plan '' = ''Project Plan''" "trim ''Define MVP  '' = ''Define MVP''"
    by (simp_all add: trim_def is_ws_def)
  have v: "validateNote (JString ''  Project Plan '') (JString ''Define MVP  '') = []"
    by (simp add: validateNote_def tr)
  have f: "''h'' \<notin> note_id ` set (stored (Content seven_notes))"
    by (simp add: stored_def seven_notes_def sample_note_def)
  have st: "stored (Content seven_notes) = seven_notes"
    by (simp add: stored_def)
  from createNote_getNote_roundtrip [OF v _ f, of "''2025-06-27T08:15:30.000Z''"]
  have "createNote ''h'' ''2025-06-27T08:15:30.000Z'' (JString ''  Project Plan '')
       (JString ''Define MVP  '') (Content seven_notes) =
     (Created fresh_note, Content (seven_notes @ [fresh_note])) \<and>
   getNote ''h'' (Content (seven_notes @ [fresh_note])) =
     (NoteOk fresh_note, Content (seven_notes @ [fresh_note]))"
    by (auto simp: st tr fresh_note_def)
  with v f show ?thesis by simp
qed

lemma updateNote_visible:
  assumes "findIndex (\<lambda>n. note_id n = i) notes = Some k" and "\<not> deleted (notes ! k)"
    and "validateNote (JString t) (JString c) = []"
  shows "updateNote i (JString t) (JString c) (Content notes) =
           (NoteOk ((notes ! k)\<lparr>title := trim t, content := trim c\<rparr>),
            Content (notes[k := (notes ! k)\<lparr>title := trim t, content := trim c\<rparr>]))"
proof -
  from findIndex_Some [OF assms(1)] have "k < length notes" by simp
  with assms show ?thesis
    by (simp add: updateNote_def readNotesFile_def writeNotesFile_def Let_def)
qed

text \<open>
  Claim C7. For every collection in which the note with id \<open>i\<close> (the first one, as
  \<open>findIndex\<close> locates it) is visible, and every valid title and content, \<open>updateNote\<close>
  answers with the note at that position, whose title and content are the trimmed inputs
  and whose id, \<open>createdAt\<close> and \<open>deleted\<close> are as before; the collection keeps its
  length, every other position and the order of its ids.
\<close>

theorem updateNote_frame:
  assumes "find (\<lambda>n. note_id n = i) notes = Some old" and "\<not> deleted old"
    and "validateNote title_v content_v = []"
  shows "\<exists>t c k notes'.
           title_v = JString t \<and> content_v = JString c \<and>
           k < length notes \<and> notes ! k = old \<and>
           updateNote i title_v content_v (Content notes) =
             (NoteOk (notes' ! k), Content notes') \<and>
           length notes' = length notes \<and>
           title (notes' ! k) = trim t \<and> content (notes' ! k) = trim c \<and>
           note_id (notes' ! k) = note_id old \<and> createdAt (notes' ! k) = createdAt old \<and>
           deleted (notes' ! k) = deleted old \<and>
           (\<forall>j<length notes. j \<noteq> k \<longrightarrow> notes' ! j = notes ! j) \<and>
           map note_id notes' = map note_id notes"
proof -
  from assms(3) obtain t c where tc: "title_v = JString t" "content_v = JString c"
    by (rule validateNote_valid)
  from assms(1) obtain k where k: "findIndex (\<lambda>n. note_id n = i) notes = Some k"
    and old: "notes ! k = old"
    by (rule find_SomeD)
  from findIndex_Some [OF k] have lt: "k < length notes" by simp
  let ?new = "old\<lparr>title := trim t, content := trim c\<rparr>"
  let ?notes' = "notes[k := ?new]"
  have up: "updateNote i title_v content_v (Content notes) = (NoteOk ?new, Content ?notes')"
    using updateNote_visible [OF k, of t c] assms(2,3) old tc by simp
  have at: "?notes' ! k = ?new"
    using lt by simp
  have ids: "map note_id ?notes' = map note_id notes"
    using lt old by (simp add: map_update list_update_same_conv)
  have others: "\<forall>j<length notes. j \<noteq> k \<longrightarrow> ?notes' ! j = notes ! j"
    by simp
  show ?thesis
    apply (rule exI [of _ t], rule exI [of _ c], rule exI [of _ k], rule exI [of _ ?notes'])
    using tc lt old up at ids others by simp
qed

text \<open>Updating the third of the seven notes.\<close>

theorem updateNote_frame_witness:
  "find (\<lambda>n. note_id n = ''c'') seven_notes = Some (sample_note ''c'' False) \<and>
   \<not> deleted (sample_note ''c'' False) \<and>
   validateNote (JString '' New title '') (JString ''Body'') = [] \<and>
   updateNote ''c'' (JString '' New title '') (JString ''Body'') (Content seven_notes) =
     (NoteOk updated_note, Content (seven_notes[2 := updated_note])) \<and>
   (\<exists>t c k notes'.
           JString '' New title '' = JString t \<and> JString ''Body'' = JString c \<and>
           k < length seven_notes \<and> seven_notes ! k = sample_note ''c'' False \<and>
           updateNote ''c'' (JString '' New title '') (JString ''Body'') (Content seven_notes) =
             (NoteOk (notes' ! k), Content notes') \<and>
           length notes' = length seven_notes \<and>
           title (notes' ! k) = trim t \<and> content (notes' ! k) = trim c \<and>
           note_id (notes' ! k) = note_id (sample_note ''c'' False) \<and>
           createdAt (notes' ! k) = createdAt (sample_note ''c'' False) \<and>
           deleted (notes' ! k) = deleted (sample_note ''c'' False) \<and>
           (\<forall>j<length seven_notes. j \<noteq> k \<longrightarrow> notes' ! j = seven_notes ! j) \<and>
           map note_id notes' = map note_id seven_notes)"
proof -
  have tr: "trim '' New title '' = ''New title''" "trim ''Body'' = ''Body''"
    by (simp_all add: trim_def is_ws_def)
  have h1: "find (\<lambda>n. note_id n = ''c'') seven_notes = Some (sample_note ''c'' False)"
    by (simp add: seven_notes_def sample_note_def)
  have h2: "\<not> deleted (sample_note ''c'' False)"
    by (simp add: sample_note_def)
  have h3: "validateNote (JString '' New title '') (JString ''Body'') = []"
    by (simp add: validateNote_def tr)
  have k: "findIndex (\<lambda>n. note_id n = ''c'') seven_notes = Some 2"
    by (simp add: seven_notes_def sample_note_def)
  have at: "seven_notes ! 2 = sample_note ''c'' False"
    by (simp add: seven_notes_def)
  have v: "updateNote ''c'' (JString '' New title '') (JString ''Body'') (Content seven_notes) =
     (NoteOk updated_note, Content (seven_notes[2 := updated_note]))"
    using updateNote_visible [OF k _ h3] h2
    by (simp add: at tr) (simp add: sample_note_def updated_note_def)
  note r = updateNote_frame [OF h1 h2 h3]
  show ?thesis
    by (rule conjI [OF h1 conjI [OF h2 conjI [OF h3 conjI [OF v r]]]])
qed

subsection \<open>Search and soft delete in the listing\<close>

lemma contains_ci_substring:
  "contains_ci text_s term_s = (\<exists>ps ss. toLowerCase text_s = ps @ toLowerCase term_s @ ss)"
  by (simp add: contains_ci_def sublist_def)

text \<open>
  Claim C9. For every collection and every non-empty search term, the listing keeps, among
  the records that pass the deleted filter and in their order, exactly those whose
  lower-cased title or lower-cased content contains the lower-cased term as a substring;
  the items are the page cut from these records and \<open>total\<close> is their number. Matching is
  therefore insensitive to case.
\<close>

theorem search_keeps_matching_records:
  assumes "search q = Some s" and "s \<noteq> []"
  shows "filterNotes q notes =
           filter (\<lambda>n. (\<exists>ps ss. toLowerCase (title n) = ps @ toLowerCase s @ ss) \<or>
                        (\<exists>ps ss. toLowerCase (content n) = ps @ toLowerCase s @ ss))
             (visible_notes q notes) \<and>
         listNotes q (Content notes) =
           (ListOk (slice (filterNotes q notes)
                      (num_mul (num_sub (parseInt (page_arg q)) (Fin 1))
                         (parseInt (limit_arg q)))
                      (num_add (num_mul (num_sub (parseInt (page_arg q)) (Fin 1))
                                  (parseInt (limit_arg q))) (parseInt (limit_arg q))))
              \<lparr>page_num = json_num (parseInt (page_arg q)),
               limit_num = json_num (parseInt (limit_arg q)),
               total = length (filterNotes q notes),
               totalPages = ceil_quotient (length (filterNotes q notes))
                              (parseInt (limit_arg q))\<rparr>,
            Content notes)"
  using assms
  by (simp add: listNotes_Content filterNotes_spec spec_filtered_def contains_ci_substring)

text \<open>A note titled \<open>Project Plan\<close> is found by \<open>search=PLAN\<close> and by
  \<open>search=project\<close>; a note about groceries is not.\<close>

theorem search_keeps_matching_records_witness:
  "search (search_query ''PLAN'') = Some ''PLAN'' \<and> ''PLAN'' \<noteq> [] \<and>
   search (search_query ''project'') = Some ''project'' \<and> ''project'' \<noteq> [] \<and>
   filter (\<lambda>n. (\<exists>ps ss. toLowerCase (title n) = ps @ toLowerCase ''PLAN'' @ ss) \<or>
                (\<exists>ps ss. toLowerCase (content n) = ps @ toLowerCase ''PLAN'' @ ss))
     (visible_notes (search_query ''PLAN'') [sample_note ''a'' False, other_note]) =
     [sample_note ''a'' False] \<and>
   filter (\<lambda>n. (\<exists>ps ss. toLowerCase (title n) = ps @ toLowerCase ''project'' @ ss) \<or>
                (\<exists>ps ss. toLowerCase (content n) = ps @ toLowerCase ''project'' @ ss))
     (visible_notes (search_query ''project'') [sample_note ''a'' False, other_note]) =
     [sample_note ''a'' False] \<and>
   listNotes (search_query ''PLAN'') (Content [sample_note ''a'' False, other_note]) =
     (ListOk [sample_note ''a'' False]
        \<lparr>page_num = Some 1, limit_num = Some 10, total = 1, totalPages = Some 1\<rparr>,
      Content [sample_note ''a'' False, other_note]) \<and>
   listNotes (search_query ''project'') (Content [sample_note ''a'' False, other_note]) =
     (ListOk [sample_note ''a'' False]
        \<lparr>page_num = Some 1, limit_num = Some 10, total = 1, totalPages = Some 1\<rparr>,
      Content [sample_note ''a'' False, other_note])"
proof -
  have h: "search (search_query ''PLAN'') = Some ''PLAN''" "''PLAN'' \<noteq> []"
    "search (search_query ''project'') = Some ''project''" "''project'' \<noteq> []"
    by (simp_all add: search_query_def)
  have f1: "filterNotes (search_query ''PLAN'') [sample_note ''a'' False, other_note] =
      [sample_note ''a'' False]"
    by code_simp
  have f2: "filterNotes (search_query ''project'') [sample_note ''a'' False, other_note] =
      [sample_note ''a'' False]"
    by code_simp
  have l1: "listNotes (search_query ''PLAN'') (Content [sample_note ''a'' False, other_note]) =
     (ListOk [sample_note ''a'' False]
        \<lparr>page_num = Some 1, limit_num = Some 10, total = 1, totalPages = Some 1\<rparr>,
      Content [sample_note ''a'' False, other_note])"
    by code_simp
  have l2: "listNotes (search_query ''project'') (Content [sample_note ''a'' False, other_note]) =
     (ListOk [sample_note ''a'' False]
        \<lparr>page_num = Some 1, limit_num = Some 10, total = 1, totalPages = Some 1\<rparr>,
      Content [sample_note ''a'' False, other_note])"
    by code_simp
  from search_keeps_matching_records [OF h(1,2), of "[sample_note ''a'' False, other_note]"]
  have s1: "filter (\<lambda>n. (\<exists>ps ss. toLowerCase (title n) = ps @ toLowerCase ''PLAN'' @ ss) \<or>
                (\<exists>ps ss. toLowerCase (content n) = ps @ toLowerCase ''PLAN'' @ ss))
     (visible_notes (search_query ''PLAN'') [sample_note ''a'' False, other_note]) =
     [sample_note ''a'' False]"
    unfolding f1 by simp
  from search_keeps_matching_records [OF h(3,4), of "[sample_note ''a'' False, other_note]"]
  have s2: "filter (\<lambda>n. (\<exists>ps ss. toLowerCase (title n) = ps @ toLowerCase ''project'' @ ss) \<or>
                (\<exists>ps ss. toLowerCase (content n) = ps @ toLowerCase ''project'' @ ss))
     (visible_notes (search_query ''project'') [sample_note ''a'' False, other_note]) =
     [sample_note ''a'' False]"
    unfolding f2 by simp
  show ?thesis
    by (intro conjI h s1 s2 l1 l2)
qed

lemma set_slice_subset: "set (slice xs a b) \<subseteq> set xs"
  unfolding slice_def Let_def
  by (meson set_take_subset set_drop_subset subset_trans)

lemma nth_in_page:
  assumes "k < length xs" and "0 < l"
  shows "xs ! k \<in> set (take l (drop (k div l * l) xs))"
proof -
  let ?m = "k div l * l"
  have k: "k = ?m + k mod l" by simp
  have lt: "k mod l < length (take l (drop ?m xs))"
    using assms by (simp add: less_diff_conv)
  have "take l (drop ?m xs) ! (k mod l) = xs ! k"
    using assms lt by simp
  with lt show ?thesis
    by (metis nth_mem)
qed

lemma getNote_hidden:
  assumes "findIndex (\<lambda>n. note_id n = i) notes = Some k" "deleted (notes ! k)"
  shows "getNote i (Content notes) = (NotFound, Content notes)"
  using assms by (simp add: getNote_def readNotesFile_def find_findIndex)

lemma filterNotes_all:
  "includeDeleted q = Some ''true'' \<Longrightarrow> search q = None \<Longrightarrow> filterNotes q notes = notes"
  by (simp add: filterNotes_spec spec_filtered_def visible_notes_def)

lemma filterNotes_not_deleted:
  assumes "includeDeleted q \<noteq> Some ''true''"
  shows "set (filterNotes q notes) \<subseteq> {n \<in> set notes. \<not> deleted n}"
  using assms
  by (auto simp: filterNotes_spec spec_filtered_def visible_notes_def split: option.splits)

text \<open>
  Claim C4, as the handlers have it. For every collection (an array, of fewer than \<open>2^32\<close>
  records) in which the note with id \<open>i\<close> (the first one, as \<open>findIndex\<close> locates it) is
  visible, \<open>deleteNote\<close> succeeds and sets its \<open>deleted\<close> flag, leaving its position;
  afterwards \<open>getNote\<close> answers NotFound; every listing without \<open>includeDeleted=true\<close> has
  only visible items, so not the deleted record (and no item with id \<open>i\<close> when ids are
  unique); and a listing with \<open>includeDeleted=true\<close> and no search term has the record,
  with \<open>deleted = true\<close>, on the page that covers its position: page \<open>k div limit + 1\<close>
  for the record at index \<open>k\<close>, where \<open>limit\<close> and the page are the positive integers
  that \<open>parseInt\<close> reads from the query or the defaults.
\<close>

theorem deleteNote_hides_note:
  assumes "find (\<lambda>n. note_id n = i) notes = Some old" and "\<not> deleted old"
    and "int (length notes) < 2 ^ 32"
  shows "\<exists>k notes'.
           k < length notes \<and> notes ! k = old \<and>
           notes' = notes[k := old\<lparr>deleted := True\<rparr>] \<and>
           deleteNote i (Content notes) = (DeletedOk, Content notes') \<and>
           getNote i (Content notes') = (NotFound, Content notes') \<and>
           (\<forall>q. includeDeleted q \<noteq> Some ''true'' \<longrightarrow>
                (\<forall>n\<in>set (items_of (fst (listNotes q (Content notes')))).
                    \<not> deleted n \<and> n \<noteq> old\<lparr>deleted := True\<rparr> \<and>
                    (distinct (map note_id notes) \<longrightarrow> note_id n \<noteq> i))) \<and>
           (\<forall>q l. includeDeleted q = Some ''true'' \<and> search q = None \<and> 0 < l \<and>
                  parseInt (limit_arg q) = Fin (int l) \<and>
                  parseInt (page_arg q) = Fin (int (k div l) + 1) \<longrightarrow>
                  old\<lparr>deleted := True\<rparr>
                    \<in> set (items_of (fst (listNotes q (Content notes')))))"
proof -
  from assms(1) obtain k where k: "findIndex (\<lambda>n. note_id n = i) notes = Some k"
    and old: "notes ! k = old"
    by (rule find_SomeD)
  from findIndex_Some [OF k] have lt: "k < length notes" and idk: "note_id (notes ! k) = i"
    by simp_all
  let ?d = "old\<lparr>deleted := True\<rparr>"
  let ?notes' = "notes[k := ?d]"
  have del: "deleteNote i (Content notes) = (DeletedOk, Content ?notes')"
    using deleteNote_visible [OF k] assms(2) old by simp
  have k': "findIndex (\<lambda>n. note_id n = i) ?notes' = Some k"
    using k idk old by (simp add: findIndex_update)
  have at: "?notes' ! k = ?d"
    using lt by simp
  have get: "getNote i (Content ?notes') = (NotFound, Content ?notes')"
    using k' by (rule getNote_hidden) (simp add: at)
  have excl: "\<not> deleted n \<and> n \<noteq> ?d \<and> (distinct (map note_id notes) \<longrightarrow> note_id n \<noteq> i)"
    if q: "includeDeleted q \<noteq> Some ''true''"
      and n: "n \<in> set (items_of (fst (listNotes q (Content ?notes'))))" for q n
  proof -
    from n have "n \<in> set (filterNotes q ?notes')"
      by (simp add: listNotes_Content) (rule subsetD [OF set_slice_subset])
    with filterNotes_not_deleted [OF q] have mem: "n \<in> set ?notes'" and nd: "\<not> deleted n"
      by auto
    from nd have ne: "n \<noteq> ?d" by auto
    have "note_id n \<noteq> i" if dist: "distinct (map note_id notes)"
    proof
      assume eq: "note_id n = i"
      from mem obtain j where j: "j < length notes" "?notes' ! j = n"
        by (auto simp: in_set_conv_nth)
      with ne at have "j \<noteq> k" by auto
      with j have nj: "notes ! j = n" by simp
      from j(1) lt \<open>j \<noteq> k\<close> have "map note_id notes ! j \<noteq> map note_id notes ! k"
        using nth_eq_iff_index_eq [OF dist, of j k] by simp
      with j(1) lt nj idk eq show False by simp
    qed
    with nd ne show ?thesis by simp
  qed
  have incl: "?d \<in> set (items_of (fst (listNotes q (Content ?notes'))))"
    if q: "includeDeleted q = Some ''true''" "search q = None" and l: "0 < l"
      and pl: "parseInt (limit_arg q) = Fin (int l)"
      and pp: "parseInt (page_arg q) = Fin (int (k div l) + 1)" for q l
  proof -
    have "int (length ?notes') < 2 ^ 32"
      using assms(3) by simp
    then have len: "int (length ?notes') < 2 ^ 53"
      by (rule less_trans) simp
    have "slice ?notes'
            (num_mul (num_sub (Fin (int (k div l) + 1)) (Fin 1)) (Fin (int l)))
            (num_add (num_mul (num_sub (Fin (int (k div l) + 1)) (Fin 1)) (Fin (int l)))
               (Fin (int l))) =
        take l (drop (k div l * l) ?notes')"
      using slice_page_double [of "int (k div l) + 1" "int l" ?notes', OF _ _ len] l
      by (simp add: nat_mult_distrib)
    then have "items_of (fst (listNotes q (Content ?notes'))) =
        take l (drop (k div l * l) ?notes')"
      using q by (simp add: listNotes_Content filterNotes_all pl pp)
    moreover have "?notes' ! k \<in> set (take l (drop (k div l * l) ?notes'))"
      using lt l by (intro nth_in_page) simp_all
    ultimately show ?thesis
      using at by simp
  qed
  show ?thesis
    apply (rule exI [of _ k], rule exI [of _ ?notes'])
    using lt old del get excl incl by blast
qed

text \<open>Claim C4 as it is stated fails: the listing is paginated. When the eleventh of
  eleven notes is deleted, the listing with \<open>includeDeleted=true\<close> and the default page and
  limit has the first ten notes, and the deleted one is not among them.\<close>

theorem listNotes_includeDeleted_counterexample:
  "find (\<lambda>n. note_id n = ''k'') eleven_notes = Some (sample_note ''k'' False) \<and>
   \<not> deleted (sample_note ''k'' False) \<and>
   deleteNote ''k'' (Content eleven_notes) = (DeletedOk, Content eleven_after) \<and>
   listNotes all_query (Content eleven_after) =
     (ListOk (take 10 eleven_notes)
        \<lparr>page_num = Some 1, limit_num = Some 10, total = 11, totalPages = Some 2\<rparr>,
      Content eleven_after) \<and>
   ''k'' \<notin> note_id ` set (take 10 eleven_notes)"
proof -
  have a: "find (\<lambda>n. note_id n = ''k'') eleven_notes = Some (sample_note ''k'' False)"
    by code_simp
  have b: "\<not> deleted (sample_note ''k'' False)"
    by (simp add: sample_note_def)
  have c: "deleteNote ''k'' (Content eleven_notes) = (DeletedOk, Content eleven_after)"
    by code_simp
  have d: "listNotes all_query (Content eleven_after) =
     (ListOk (take 10 eleven_notes)
        \<lparr>page_num = Some 1, limit_num = Some 10, total = 11, totalPages = Some 2\<rparr>,
      Content eleven_after)"
    by code_simp
  have e: "''k'' \<notin> note_id ` set (take 10 eleven_notes)"
    by code_simp
  show ?thesis
    by (intro conjI a b c d e)
qed

text \<open>The same eleven notes: the deleted one is on page 2 of the listing with
  \<open>includeDeleted=true\<close>, and on no page of the default listing.\<close>

theorem deleteNote_hides_note_witness:
  "find (\<lambda>n. note_id n = ''k'') eleven_notes = Some (sample_note ''k'' False) \<and>
   \<not> deleted (sample_note ''k'' False) \<and>
   deleteNote ''k'' (Content eleven_notes) = (DeletedOk, Content eleven_after) \<and>
   getNote ''k'' (Content eleven_after) = (NotFound, Content eleven_after) \<and>
   listNotes (plain_query None None) (Content eleven_after) =
     (ListOk (take 10 eleven_notes)
        \<lparr>page_num = Some 1, limit_num = Some 10, total = 10, totalPages = Some 1\<rparr>,
      Content eleven_after) \<and>
   listNotes page2_all_query (Content eleven_after) =
     (ListOk [sample_note ''k'' True]
        \<lparr>page_num = Some 2, limit_num = Some 10, total = 11, totalPages = Some 2\<rparr>,
      Content eleven_after) \<and>
   distinct (map note_id eleven_notes) \<and> eleven_notes ! 10 = sample_note ''k'' False \<and>
   includeDeleted (plain_query None None) \<noteq> Some ''true'' \<and>
   includeDeleted page2_all_query = Some ''true'' \<and> search page2_all_query = None \<and>
   parseInt (limit_arg page2_all_query) = Fin (int 10) \<and>
   parseInt (page_arg page2_all_query) = Fin (int (10 div 10) + 1) \<and>
   int (length eleven_notes) < 2 ^ 32 \<and>
   (\<exists>k notes'.
           k < length eleven_notes \<and> eleven_notes ! k = sample_note ''k'' False \<and>
           notes' = eleven_notes[k := (sample_note ''k'' False)\<lparr>deleted := True\<rparr>] \<and>
           deleteNote ''k'' (Content eleven_notes) = (DeletedOk, Content notes') \<and>
           getNote ''k'' (Content notes') = (NotFound, Content notes') \<and>
           (\<forall>q. includeDeleted q \<noteq> Some ''true'' \<longrightarrow>
                (\<forall>n\<in>set (items_of (fst (listNotes q (Content notes')))).
                    \<not> deleted n \<and> n \<noteq> (sample_note ''k'' False)\<lparr>deleted := True\<rparr> \<and>
                    (distinct (map note_id eleven_notes) \<longrightarrow> note_id n \<noteq> ''k''))) \<and>
           (\<forall>q l. includeDeleted q = Some ''true'' \<and> search q = None \<and> 0 < l \<and>
                  parseInt (limit_arg q) = Fin (int l) \<and>
                  parseInt (page_arg q) = Fin (int (k div l) + 1) \<longrightarrow>
                  (sample_note ''k'' False)\<lparr>deleted := True\<rparr>
                    \<in> set (items_of (fst (listNotes q (Content notes'))))))"
proof -
  have a: "find (\<lambda>n. note_id n = ''k'') eleven_notes = Some (sample_note ''k'' False)"
    by code_simp
  have b: "\<not> deleted (sample_note ''k'' False)"
    by (simp add: sample_note_def)
  have c: "deleteNote ''k'' (Content eleven_notes) = (DeletedOk, Content eleven_after)"
    by code_simp
  have d: "getNote ''k'' (Content eleven_after) = (NotFound, Content eleven_after)"
    by code_simp
  have e: "listNotes (plain_query None None) (Content eleven_after) =
     (ListOk (take 10 eleven_notes)
        \<lparr>page_num = Some 1, limit_num = Some 10, total = 10, totalPages = Some 1\<rparr>,
      Content eleven_after)"
    by code_simp
  have f: "listNotes page2_all_query (Content eleven_after) =
     (ListOk [sample_note ''k'' True]
        \<lparr>page_num = Some 2, limit_num = Some 10, total = 11, totalPages = Some 2\<rparr>,
      Content eleven_after)"
    by code_simp
  have g: "distinct (map note_id eleven_notes)"
    "eleven_notes ! 10 = sample_note ''k'' False"
    "includeDeleted (plain_query None None) \<noteq> Some ''true''"
    "includeDeleted page2_all_query = Some ''true''" "search page2_all_query = None"
    by (simp_all add: eleven_notes_def seven_notes_def sample_note_def plain_query_def
        page2_all_query_def)
  have h: "parseInt (limit_arg page2_all_query) = Fin (int 10)"
    "parseInt (page_arg page2_all_query) = Fin (int (10 div 10) + 1)"
    by (simp_all add: page2_all_query_def limit_arg_def page_arg_def parseInt_string_values)
  have n: "int (length eleven_notes) < 2 ^ 32"
    by (simp add: eleven_notes_def seven_notes_def)
  note r = deleteNote_hides_note [OF a b n]
  show ?thesis
    by (intro conjI a b c d e f g h n r)
qed

end
